theory Spec2Isabelle
  imports Complex_Main "HOL-Library.Char_ord" "HOL-Library.List_Lexorder"
    "HOL-Library.Product_Lexorder"
begin

section \<open>Data model\<close>

text \<open>
  The dashboard script \<^verbatim>\<open>streamlit_app.py\<close> works on pandas data frames whose
  rows carry the columns \<^verbatim>\<open>Date\<close>, \<^verbatim>\<open>URL\<close>, \<^verbatim>\<open>Device\<close>, \<^verbatim>\<open>INP\<close>, \<^verbatim>\<open>CLS\<close>,
  \<^verbatim>\<open>LCP\<close>; these are the only columns of the report that the script ever names.
  The seventh column it names, \<^verbatim>\<open>all_green\<close>, is added in memory by
  \<^verbatim>\<open>load_current_data\<close>; a report is not required to have it, so the cell is optional:
  \<open>None\<close> where the frame the row was read from has no such column.  Scores are
  floating point numbers in the script; they are modelled by exact rationals, which agree
  with floats on every comparison against the threshold 75.
\<close>

record row =
  Date :: string
  URL :: string
  Device :: string
  INP :: rat
  CLS :: rat
  LCP :: rat
  all_green :: "bool option"

text \<open>
  A file is either a well-formed tab separated table (a header and its rows) or something
  \<^verbatim>\<open>pd.read_csv\<close> raises on.
\<close>

datatype contents = Table "row list" | Unparseable

text \<open>
  The part of the file system the script touches: the raw report \<^verbatim>\<open>cwv_report.txt\<close>
  (\<open>None\<close> when the file is absent), the directory \<^verbatim>\<open>history\<close> as a list of named
  files in the order \<^verbatim>\<open>os.listdir\<close> enumerates them, and the names for which the operating
  system refuses to create a file.
\<close>

record fs =
  report :: "contents option"
  history :: "(string \<times> contents) list"
  denied :: "string list"

text \<open>
  The exceptions of the Python run time that the pipeline can raise.  \<open>NoDataError\<close> is
  the name the specification uses for an empty history; no function of the script raises
  it.
\<close>

datatype error =
    FileNotFoundError
  | ParserError
  | DateParseError
  | OSError
  | ValueError
  | KeyError
  | NoDataError

section \<open>Report parser and history archiver\<close>

text \<open>\<^verbatim>\<open>x.split('GMT')[0]\<close>: the text before the first occurrence of \<^verbatim>\<open>GMT\<close>.\<close>

fun split_GMT_0 :: "string \<Rightarrow> string" where
  "split_GMT_0 [] = []"
| "split_GMT_0 (c # cs) =
     (if take 3 (c # cs) = ''GMT'' then [] else c # split_GMT_0 cs)"

text \<open>\<^verbatim>\<open>str.strip()\<close>: leading and trailing ASCII white space removed.\<close>

definition isspace :: "char \<Rightarrow> bool" where
  "isspace c = (let n = (of_char c :: nat) in (9 \<le> n \<and> n \<le> 13) \<or> (28 \<le> n \<and> n \<le> 32))"

definition strip :: "string \<Rightarrow> string" where
  "strip s = rev (dropWhile isspace (rev (dropWhile isspace s)))"

text \<open>
  Lines 31 and 32.  \<open>to_datetime\<close> stands for \<^verbatim>\<open>pd.to_datetime\<close> followed by
  \<^verbatim>\<open>strftime('%Y-%m-%d')\<close> on one cell; it is a library function and a parameter of the
  model, \<open>None\<close> where pandas raises.  One cell that does not parse fails the whole column.
\<close>

fun normalise_dates :: "(string \<Rightarrow> string option) \<Rightarrow> row list \<Rightarrow> row list option" where
  "normalise_dates to_datetime [] = Some []"
| "normalise_dates to_datetime (r # rs) =
     (case to_datetime (strip (split_GMT_0 (Date r))) of
        None \<Rightarrow> None
      | Some d \<Rightarrow>
          (case normalise_dates to_datetime rs of
             None \<Rightarrow> None
           | Some rs' \<Rightarrow> Some (r\<lparr>Date := d\<rparr> # rs')))"

text \<open>\<^verbatim>\<open>Series.unique()\<close>: the distinct values in order of first appearance.\<close>

definition unique :: "'a list \<Rightarrow> 'a list" where
  "unique xs = rev (remdups (rev xs))"

definition history_file :: "string \<Rightarrow> string" where
  "history_file date = date @ ''_cwv_report.txt''"

definition path_exists :: "string \<Rightarrow> fs \<Rightarrow> bool" where
  "path_exists name s = (name \<in> set (map fst (history s)))"

text \<open>Writing a file replaces the file of that name, or adds a new one.\<close>

fun write_file :: "string \<Rightarrow> contents \<Rightarrow> (string \<times> contents) list \<Rightarrow> (string \<times> contents) list" where
  "write_file name c [] = [(name, c)]"
| "write_file name c ((n, d) # fl) =
     (if n = name then (name, c) # fl else (n, d) # write_file name c fl)"

text \<open>\<^verbatim>\<open>DataFrame.to_csv\<close>: raises where the operating system refuses the file.\<close>

definition to_csv :: "string \<Rightarrow> row list \<Rightarrow> fs \<Rightarrow> (error + unit) \<times> fs" where
  "to_csv name df s =
     (if name \<in> set (denied s) then (Inl OSError, s)
      else (Inr (), s\<lparr>history := write_file name (Table df) (history s)\<rparr>))"

text \<open>
  The loop of lines 34 to 38.  An exception of \<^verbatim>\<open>to_csv\<close> is not caught: it leaves the
  loop, and the files written so far stay.
\<close>

fun archive_loop :: "row list \<Rightarrow> string list \<Rightarrow> fs \<Rightarrow> (error + unit) \<times> fs" where
  "archive_loop consolidated_df [] s = (Inr (), s)"
| "archive_loop consolidated_df (date # dates) s =
     (let date_df = filter (\<lambda>r. Date r = date) consolidated_df in
      if \<not> path_exists (history_file date) s then
        (case to_csv (history_file date) date_df s of
           (Inl e, s') \<Rightarrow> (Inl e, s')
         | (Inr u, s') \<Rightarrow> archive_loop consolidated_df dates s')
      else archive_loop consolidated_df dates s)"

definition process_consolidated_file ::
    "(string \<Rightarrow> string option) \<Rightarrow> fs \<Rightarrow> (error + row list) \<times> fs" where
  "process_consolidated_file to_datetime s =
     (case report s of
        None \<Rightarrow> (Inl FileNotFoundError, s)
      | Some Unparseable \<Rightarrow> (Inl ParserError, s)
      | Some (Table raw) \<Rightarrow>
          (case normalise_dates to_datetime raw of
             None \<Rightarrow> (Inl DateParseError, s)
           | Some consolidated_df \<Rightarrow>
               (case archive_loop consolidated_df (unique (map Date consolidated_df)) s of
                  (Inl e, s') \<Rightarrow> (Inl e, s')
                | (Inr u, s') \<Rightarrow> (Inr consolidated_df, s'))))"

section \<open>History loader and snapshot selector\<close>

definition endswith :: "string \<Rightarrow> string \<Rightarrow> bool" where
  "endswith name sfx = (length sfx \<le> length name \<and> drop (length name - length sfx) name = sfx)"

text \<open>
  The loop of lines 45 to 48: every file of the directory whose name has the suffix is
  parsed, in listing order; the first one that does not parse raises.
\<close>

fun read_all :: "(string \<times> contents) list \<Rightarrow> error + row list list" where
  "read_all [] = Inr []"
| "read_all ((name, c) # fl) =
     (if endswith name ''_cwv_report.txt'' then
        (case c of
           Unparseable \<Rightarrow> Inl ParserError
         | Table df \<Rightarrow>
             (case read_all fl of
                Inl e \<Rightarrow> Inl e
              | Inr all_data \<Rightarrow> Inr (df # all_data)))
      else read_all fl)"

definition load_historical_data ::
    "(string \<Rightarrow> string option) \<Rightarrow> fs \<Rightarrow> (error + row list option) \<times> fs" where
  "load_historical_data to_datetime s =
     (case process_consolidated_file to_datetime s of
        (Inl e, s') \<Rightarrow> (Inl e, s')
      | (Inr consolidated_df, s') \<Rightarrow>
          (case read_all (history s') of
             Inl e \<Rightarrow> (Inl e, s')
           | Inr all_data \<Rightarrow>
               (if all_data \<noteq> [] then (Inr (Some (concat all_data)), s')
                else (Inr None, s'))))"

text \<open>\<^verbatim>\<open>max\<close> of a list of strings; Python raises \<^verbatim>\<open>ValueError\<close> on the empty list.\<close>

fun max_str :: "string list \<Rightarrow> error + string" where
  "max_str [] = Inl ValueError"
| "max_str (x # xs) = Inr (fold max xs x)"

definition passes :: "rat \<Rightarrow> bool" where
  "passes v = (75 \<le> v)"

definition read_csv :: "string \<Rightarrow> fs \<Rightarrow> error + row list" where
  "read_csv name s =
     (case map_of (history s) name of
        None \<Rightarrow> Inl FileNotFoundError
      | Some Unparseable \<Rightarrow> Inl ParserError
      | Some (Table df) \<Rightarrow> Inr df)"

definition load_current_data ::
    "(string \<Rightarrow> string option) \<Rightarrow> fs \<Rightarrow> (error + row list) \<times> fs" where
  "load_current_data to_datetime s =
     (case process_consolidated_file to_datetime s of
        (Inl e, s') \<Rightarrow> (Inl e, s')
      | (Inr consolidated_df, s') \<Rightarrow>
          (let history_files =
                 filter (\<lambda>f. endswith f ''_cwv_report.txt'') (map fst (history s')) in
           case max_str history_files of
             Inl e \<Rightarrow> (Inl e, s')
           | Inr latest_file \<Rightarrow>
               (case read_csv latest_file s' of
                  Inl e \<Rightarrow> (Inl e, s')
                | Inr df \<Rightarrow>
                    (Inr (map (\<lambda>r. r\<lparr>all_green :=
                              Some (passes (INP r) \<and> passes (CLS r) \<and> passes (LCP r))\<rparr>) df),
                     s'))))"

section \<open>Device merger\<close>

text \<open>
  One line of \<^verbatim>\<open>merged_df\<close>.  A metric of a device for which the URL has no row is
  \<^verbatim>\<open>NaN\<close> in pandas: \<open>None\<close> here.
\<close>

record merged =
  index_URL :: string
  Desktop_INP :: "rat option"
  Desktop_CLS :: "rat option"
  Desktop_LCP :: "rat option"
  Mobile_INP :: "rat option"
  Mobile_CLS :: "rat option"
  Mobile_LCP :: "rat option"
  merged_all_green :: bool

text \<open>\<^verbatim>\<open>df['Date'].max()\<close>; \<^verbatim>\<open>NaN\<close>, which equals no date, on a frame without rows.\<close>

fun latest_date :: "row list \<Rightarrow> string option" where
  "latest_date [] = None"
| "latest_date (r # rs) = Some (fold max (map Date rs) (Date r))"

text \<open>Lines 188 to 198: the rows of one device at the latest date, indexed by URL.\<close>

definition device_data :: "string \<Rightarrow> row list \<Rightarrow> (string \<times> rat \<times> rat \<times> rat) list" where
  "device_data dev df =
     map (\<lambda>r. (URL r, INP r, CLS r, LCP r))
       (filter (\<lambda>r. Some (Date r) = latest_date df \<and> Device r = dev) df)"

text \<open>
  \<^verbatim>\<open>pd.merge(..., left_index=True, right_index=True, how='outer')\<close>: the keys of both
  sides in sorted order; a key of one side only gets the other side's columns empty, a key
  of both sides gets every pairing of its left and right lines.
\<close>

definition merge_outer ::
    "(string \<times> 'a) list \<Rightarrow> (string \<times> 'b) list \<Rightarrow> (string \<times> 'a option \<times> 'b option) list" where
  "merge_outer left right =
     concat (map (\<lambda>k.
        let ls = map snd (filter (\<lambda>p. fst p = k) left);
            rs = map snd (filter (\<lambda>p. fst p = k) right)
        in if rs = [] then map (\<lambda>l. (k, Some l, None)) ls
           else if ls = [] then map (\<lambda>r. (k, None, Some r)) rs
           else concat (map (\<lambda>l. map (\<lambda>r. (k, Some l, Some r)) rs) ls))
       (sort (remdups (map fst left @ map fst right))))"

text \<open>A comparison with \<^verbatim>\<open>NaN\<close> is false.\<close>

fun ge75 :: "rat option \<Rightarrow> bool" where
  "ge75 None = False"
| "ge75 (Some v) = (75 \<le> v)"

definition merged_line ::
    "string \<times> (rat \<times> rat \<times> rat) option \<times> (rat \<times> rat \<times> rat) option \<Rightarrow> merged" where
  "merged_line t =
     (case t of (u, d, m) \<Rightarrow>
        (let di = map_option fst d; dc = map_option (fst \<circ> snd) d; dl = map_option (snd \<circ> snd) d;
             mi = map_option fst m; mc = map_option (fst \<circ> snd) m; ml = map_option (snd \<circ> snd) m
         in \<lparr>index_URL = u,
             Desktop_INP = di, Desktop_CLS = dc, Desktop_LCP = dl,
             Mobile_INP = mi, Mobile_CLS = mc, Mobile_LCP = ml,
             merged_all_green =
               (ge75 di \<and> ge75 dc \<and> ge75 dl \<and> ge75 mi \<and> ge75 mc \<and> ge75 ml)\<rparr>))"

text \<open>Lines 185 to 211.\<close>

definition merged_df :: "row list \<Rightarrow> merged list" where
  "merged_df df =
     map merged_line (merge_outer (device_data ''desktop'' df) (device_data ''mobile'' df))"

text \<open>Lines 220 to 224: the status filter of the side bar.\<close>

definition status_filter :: "string list \<Rightarrow> merged list \<Rightarrow> merged list" where
  "status_filter selected_status ms =
     (if length selected_status < 2 then
        (if ''All Green'' \<in> set selected_status then filter (\<lambda>m. merged_all_green m) ms
         else if ''Needs Improvement'' \<in> set selected_status
           then filter (\<lambda>m. \<not> merged_all_green m) ms
         else ms)
      else ms)"

text \<open>
  Line 227, \<^verbatim>\<open>sort_values(['all_green', 'URL'], ascending=[False, True])\<close>: descending
  in \<^verbatim>\<open>all_green\<close> (\<^verbatim>\<open>True\<close> above \<^verbatim>\<open>False\<close>), then ascending in the URL.
\<close>

definition sort_values :: "merged list \<Rightarrow> merged list" where
  "sort_values ms = sort_key (\<lambda>m. (\<not> merged_all_green m, index_URL m)) ms"

definition domain_table :: "string list \<Rightarrow> row list \<Rightarrow> merged list" where
  "domain_table selected_status df = sort_values (status_filter selected_status (merged_df df))"

section \<open>Aggregator\<close>

text \<open>\<^verbatim>\<open>Series.mean()\<close>; \<^verbatim>\<open>NaN\<close> on the empty series.\<close>

definition series_mean :: "rat list \<Rightarrow> rat option" where
  "series_mean xs = (if xs = [] then None else Some (sum_list xs / of_nat (length xs)))"

text \<open>Lines 141 to 148: \<^verbatim>\<open>(df[metric] >= 75).mean() * 100\<close> for the three metrics.\<close>

definition pass_rate :: "(row \<Rightarrow> rat) \<Rightarrow> row list \<Rightarrow> rat option" where
  "pass_rate metric df =
     map_option (\<lambda>m. m * 100) (series_mean (map (\<lambda>r. of_bool (75 \<le> metric r)) df))"

definition metrics_data :: "row list \<Rightarrow> (string \<times> rat option) list" where
  "metrics_data df =
     [(''INP'', pass_rate INP df), (''CLS'', pass_rate CLS df), (''LCP'', pass_rate LCP df)]"

text \<open>
  Python's \<^verbatim>\<open>sum\<close> over the \<^verbatim>\<open>all_green\<close> cells of a group; an empty cell (\<^verbatim>\<open>NaN\<close>)
  makes the sum \<^verbatim>\<open>NaN\<close>.
\<close>

fun sum_cells :: "bool option list \<Rightarrow> rat option" where
  "sum_cells [] = Some 0"
| "sum_cells (None # xs) = None"
| "sum_cells (Some b # xs) = map_option (\<lambda>t. of_bool b + t) (sum_cells xs)"

text \<open>
  Lines 304 to 309: \<^verbatim>\<open>historical_df.groupby('Date').agg(...)\<close>.  pandas raises
  \<^verbatim>\<open>KeyError\<close> when the frame has no column \<^verbatim>\<open>all_green\<close>; the groups come in sorted
  order of their date.  An entry is the date, the share of \<^verbatim>\<open>all_green\<close> in percent and
  the means of the three metrics.
\<close>

definition daily_metrics ::
    "row list \<Rightarrow> error + (string \<times> rat option \<times> rat option \<times> rat option \<times> rat option) list" where
  "daily_metrics historical_df =
     (if list_all (\<lambda>r. all_green r = None) historical_df then Inl KeyError
      else Inr (map (\<lambda>d.
             let x = filter (\<lambda>r. Date r = d) historical_df
             in (d,
                 map_option (\<lambda>t. t / of_nat (length x) * 100) (sum_cells (map all_green x)),
                 series_mean (map INP x), series_mean (map CLS x), series_mean (map LCP x)))
           (sort (remdups (map Date historical_df)))))"

section \<open>Example data\<close>

text \<open>The two rows of the scenario of the specification, as a six-column report has them.\<close>

definition a_desktop :: row where
  "a_desktop = \<lparr>Date = ''2024-01-01'', URL = ''a.com'', Device = ''desktop'',
     INP = 80, CLS = 80, LCP = 80, all_green = None\<rparr>"

definition a_mobile :: row where
  "a_mobile = \<lparr>Date = ''2024-01-01'', URL = ''a.com'', Device = ''mobile'',
     INP = 60, CLS = 90, LCP = 90, all_green = None\<rparr>"

text \<open>A readable report without rows over an empty history directory.\<close>

definition no_data_fs :: fs where
  "no_data_fs = \<lparr>report = Some (Table []), history = [], denied = []\<rparr>"

text \<open>The scenario's report over an empty history directory.\<close>

definition scenario_fs :: fs where
  "scenario_fs = \<lparr>report = Some (Table [a_desktop, a_mobile]), history = [], denied = []\<rparr>"

definition b_desktop :: row where
  "b_desktop = \<lparr>Date = ''2024-01-02'', URL = ''b.com'', Device = ''desktop'',
     INP = 90, CLS = 90, LCP = 90, all_green = None\<rparr>"

text \<open>A history with one slice that does not parse and one that does.\<close>

definition corrupt_fs :: fs where
  "corrupt_fs = \<lparr>report = Some (Table []),
     history = [(''2024-01-01_cwv_report.txt'', Unparseable),
                (''2024-01-02_cwv_report.txt'', Table [b_desktop])],
     denied = []\<rparr>"

text \<open>A history with one slice, the raw report absent.\<close>

definition absent_report_fs :: fs where
  "absent_report_fs = \<lparr>report = None,
     history = [(''2024-01-02_cwv_report.txt'', Table [b_desktop])], denied = []\<rparr>"

text \<open>A report with two dates where the slice of the first date cannot be written.\<close>

definition denied_fs :: fs where
  "denied_fs = \<lparr>report = Some (Table [a_desktop, b_desktop]), history = [],
     denied = [''2024-01-01_cwv_report.txt'']\<rparr>"

text \<open>The file the archiving loop writes for a date: its name and its rows.\<close>

definition slice :: "row list \<Rightarrow> string \<Rightarrow> string \<times> contents" where
  "slice df d = (history_file d, Table (filter (\<lambda>r. Date r = d) df))"

text \<open>A second domain that passes on both devices, and a third with a desktop row only.\<close>

definition c_desktop :: row where
  "c_desktop = \<lparr>Date = ''2024-01-01'', URL = ''c.com'', Device = ''desktop'',
     INP = 90, CLS = 90, LCP = 90, all_green = None\<rparr>"

definition c_mobile :: row where
  "c_mobile = \<lparr>Date = ''2024-01-01'', URL = ''c.com'', Device = ''mobile'',
     INP = 90, CLS = 90, LCP = 90, all_green = None\<rparr>"



section \<open>Pass rate by metric\<close>

lemma sum_of_bool: "sum_list (map (\<lambda>r. of_bool (P r)) xs) = (of_nat (length (filter P xs)) :: rat)"
  by (induction xs) simp_all

lemma pass_rate_eq:
  "df \<noteq> [] \<Longrightarrow> pass_rate metric df =
     Some (of_nat (length (filter (\<lambda>r. 75 \<le> metric r) df)) / of_nat (length df) * 100)"
  by (simp add: pass_rate_def series_mean_def sum_of_bool)

lemma share_bounds:
  fixes n k :: nat
  assumes "k \<le> n" "0 < n"
  shows "0 \<le> (of_nat k :: rat) / of_nat n * 100 \<and> (of_nat k :: rat) / of_nat n * 100 \<le> 100"
proof -
  have kn: "(of_nat k :: rat) \<le> of_nat n" using assms by simp
  have n0: "(0 :: rat) < of_nat n" using assms by simp
  have q1: "(of_nat k :: rat) / of_nat n \<le> 1" using kn n0 by (simp add: divide_le_eq)
  have q0: "0 \<le> (of_nat k :: rat) / of_nat n" by simp
  have "(of_nat k :: rat) / of_nat n * 100 \<le> 1 * 100"
    using q1 by (rule mult_right_mono) simp
  moreover have "0 \<le> (of_nat k :: rat) / of_nat n * 100"
    using q0 by (rule mult_nonneg_nonneg) simp
  ultimately show ?thesis by simp
qed

text \<open>
  Claim C6.  For every frame with at least one row, the pass rate of each of INP, CLS and
  LCP is the number of rows whose metric is at least 75, divided by the number of rows,
  times 100, each metric on its own; and every rate lies between 0 and 100.
\<close>

theorem metrics_data_pass_rate:
  assumes "df \<noteq> []"
  shows "metrics_data df =
      [(''INP'', Some (of_nat (length (filter (\<lambda>r. 75 \<le> INP r) df)) / of_nat (length df) * 100)),
       (''CLS'', Some (of_nat (length (filter (\<lambda>r. 75 \<le> CLS r) df)) / of_nat (length df) * 100)),
       (''LCP'', Some (of_nat (length (filter (\<lambda>r. 75 \<le> LCP r) df)) / of_nat (length df) * 100))]
    \<and> (\<forall>m v. (m, v) \<in> set (metrics_data df) \<longrightarrow> (\<exists>p. v = Some p \<and> 0 \<le> p \<and> p \<le> 100))"
proof -
  have len: "0 < length df" using assms by simp
  have b: "\<And>P. 0 \<le> (of_nat (length (filter P df)) :: rat) / of_nat (length df) * 100
        \<and> (of_nat (length (filter P df)) :: rat) / of_nat (length df) * 100 \<le> 100"
    by (rule share_bounds) (use len in simp_all)
  show ?thesis
    unfolding metrics_data_def using b by (auto simp: pass_rate_eq [OF assms])
qed

text \<open>
  The scenario of the specification: one desktop row with INP 80 and one mobile row with
  INP 60 give a pass rate of 50 for INP.
\<close>

theorem metrics_data_pass_rate_witness:
  "[a_desktop, a_mobile] \<noteq> [] \<and> metrics_data [a_desktop, a_mobile] = [(''INP'', Some 50), (''CLS'', Some 100), (''LCP'', Some 100)]"
  using metrics_data_pass_rate [of "[a_desktop, a_mobile]"]
  by (simp add: a_desktop_def a_mobile_def)

section \<open>Loading: empty history, missing column, side effects\<close>

lemma pcf_empty_report:
  "report s = Some (Table []) \<Longrightarrow> process_consolidated_file td s = (Inr [], s)"
  by (simp add: process_consolidated_file_def unique_def)

text \<open>
  Claim C5 as stated fails: on an empty history and a report without rows the snapshot
  selector raises Python's \<^verbatim>\<open>ValueError\<close> (\<^verbatim>\<open>max\<close> of an empty list), which is not the
  \<open>NoDataError\<close> of the specification.
\<close>

theorem empty_store_counterexample:
  "fst (load_current_data Some no_data_fs) = Inl ValueError \<and> ValueError \<noteq> NoDataError"
  by (simp add: load_current_data_def no_data_fs_def pcf_empty_report)

text \<open>
  Claim C5, amended.  On an empty history directory, when the raw report is readable and
  has no rows (so that archiving creates no slice), the history loader returns the
  explicit empty signal \<^verbatim>\<open>None\<close> without raising, and the snapshot selector fails with
  \<^verbatim>\<open>ValueError\<close>; neither changes the file system.
\<close>

theorem empty_store_signals:
  assumes "history s = []" and "report s = Some (Table [])"
  shows "load_historical_data td s = (Inr None, s) \<and> load_current_data td s = (Inl ValueError, s)"
  using assms by (simp add: load_historical_data_def load_current_data_def pcf_empty_report)

theorem empty_store_signals_witness:
  "history no_data_fs = [] \<and> report no_data_fs = Some (Table [])
   \<and> load_historical_data Some no_data_fs = (Inr None, no_data_fs)
   \<and> load_current_data Some no_data_fs = (Inl ValueError, no_data_fs)"
  using empty_store_signals [of no_data_fs Some] by (simp add: no_data_fs_def)

lemma strip_date: "strip ''2024-01-01'' = ''2024-01-01''"
  by (simp add: strip_def isspace_def)

lemma scenario_archive:
  "process_consolidated_file Some scenario_fs =
     (Inr [a_desktop, a_mobile],
      scenario_fs\<lparr>history := [(''2024-01-01_cwv_report.txt'', Table [a_desktop, a_mobile])]\<rparr>)"
  by (simp add: process_consolidated_file_def scenario_fs_def a_desktop_def a_mobile_def strip_date
      unique_def path_exists_def history_file_def to_csv_def)

text \<open>
  Claim C7 at a failing input.  The history loaded from the six-column report of the
  scenario has no column \<^verbatim>\<open>all_green\<close> (only \<^verbatim>\<open>load_current_data\<close> adds it, in memory),
  so the aggregation of lines 304 to 309 raises \<^verbatim>\<open>KeyError\<close> instead of returning one
  entry for the date.
\<close>

theorem daily_metrics_key_error:
  "fst (load_historical_data Some scenario_fs) = Inr (Some [a_desktop, a_mobile])
   \<and> daily_metrics [a_desktop, a_mobile] = Inl KeyError"
  by (simp add: load_historical_data_def scenario_archive endswith_def daily_metrics_def
      a_desktop_def a_mobile_def)

text \<open>
  Claim C10.  Both loaders run the archiver first: whatever the archiver raises they raise,
  in particular \<^verbatim>\<open>FileNotFoundError\<close> when the raw report is absent, whatever the history
  holds; and the file system they leave is the one the archiver leaves.
\<close>

theorem loading_runs_archiver:
  "(\<forall>e. fst (process_consolidated_file td s) = Inl e \<longrightarrow>
        fst (load_historical_data td s) = Inl e \<and> fst (load_current_data td s) = Inl e)
   \<and> (report s = None \<longrightarrow>
        fst (load_historical_data td s) = Inl FileNotFoundError
        \<and> fst (load_current_data td s) = Inl FileNotFoundError)
   \<and> snd (load_historical_data td s) = snd (process_consolidated_file td s)
   \<and> snd (load_current_data td s) = snd (process_consolidated_file td s)"
proof -
  obtain r s' where p: "process_consolidated_file td s = (r, s')" by (cases "process_consolidated_file td s")
  have none: "report s = None \<Longrightarrow> r = Inl FileNotFoundError"
    using p by (simp add: process_consolidated_file_def)
  show ?thesis
    using p none
    by (auto simp: load_historical_data_def load_current_data_def Let_def
        split: sum.splits)
qed

text \<open>
  With the report absent and one slice archived both loaders fail; on the scenario both
  create a slice as a side effect.
\<close>

theorem loading_runs_archiver_witness:
  "report absent_report_fs = None \<and> history absent_report_fs \<noteq> []
   \<and> fst (load_historical_data Some absent_report_fs) = Inl FileNotFoundError
   \<and> fst (load_current_data Some absent_report_fs) = Inl FileNotFoundError
   \<and> history (snd (load_historical_data Some scenario_fs)) \<noteq> history scenario_fs
   \<and> history (snd (load_current_data Some scenario_fs)) \<noteq> history scenario_fs"
  using loading_runs_archiver [of Some absent_report_fs] loading_runs_archiver [of Some scenario_fs]
  by (simp add: absent_report_fs_def scenario_archive) (simp add: scenario_fs_def)

section \<open>Failures of one slice\<close>

lemma write_file_new:
  "name \<notin> set (map fst fl) \<Longrightarrow> write_file name c fl = fl @ [(name, c)]"
  by (induction fl) auto

lemma to_csv_frame [simp]:
  "denied (snd (to_csv name df s)) = denied s" "report (snd (to_csv name df s)) = report s"
  by (simp_all add: to_csv_def)

lemma archive_loop_frame:
  "denied (snd (archive_loop df ds s)) = denied s \<and> report (snd (archive_loop df ds s)) = report s"
proof (induction ds arbitrary: s)
  case Nil
  show ?case by simp
next
  case (Cons d ds)
  show ?case
  proof (cases "path_exists (history_file d) s")
    case True
    then show ?thesis using Cons.IH [of s] by simp
  next
    case False
    show ?thesis
    proof (cases "history_file d \<in> set (denied s)")
      case True
      then show ?thesis using False by (simp add: to_csv_def)
    next
      case no: False
      let ?s1 = "s\<lparr>history := write_file (history_file d) (Table (filter (\<lambda>r. Date r = d) df)) (history s)\<rparr>"
      have "archive_loop df (d # ds) s = archive_loop df ds ?s1"
        using False no by (simp add: to_csv_def)
      then show ?thesis using Cons.IH [of ?s1] by simp
    qed
  qed
qed

lemma archive_loop_append:
  "archive_loop df (xs @ ys) s =
     (case archive_loop df xs s of (Inl e, s') \<Rightarrow> (Inl e, s') | (Inr u, s') \<Rightarrow> archive_loop df ys s')"
  by (induction xs arbitrary: s) (auto simp: Let_def split: prod.splits sum.splits)

lemma archive_loop_denied:
  assumes "\<not> path_exists (history_file d) s" and "history_file d \<in> set (denied s)"
  shows "archive_loop df (d # ds) s = (Inl OSError, s)"
  using assms by (simp add: to_csv_def)

lemma read_all_unparseable:
  "(name, Unparseable) \<in> set fl \<Longrightarrow> endswith name ''_cwv_report.txt'' \<Longrightarrow>
     read_all fl = Inl ParserError"
proof (induction fl)
  case Nil
  then show ?case by simp
next
  case (Cons f fl)
  obtain n c where f: "f = (n, c)" by (cases f)
  show ?case
  proof (cases "(name, Unparseable) = f")
    case True
    then show ?thesis using Cons.prems f by simp
  next
    case False
    then have "read_all fl = Inl ParserError" using Cons by simp
    then show ?thesis using f by (simp split: contents.splits)
  qed
qed

text \<open>
  Claim C9 as stated fails: with one slice that does not parse, loading the full history
  raises instead of skipping it and returning the other slice; and when the slice of the
  first date of a report cannot be written the archiver raises and the slice of the second
  date is never written.
\<close>

theorem fault_isolation_counterexample:
  "fst (load_historical_data Some corrupt_fs) = Inl ParserError
   \<and> process_consolidated_file Some denied_fs = (Inl OSError, denied_fs)"
  by (simp add: load_historical_data_def pcf_empty_report corrupt_fs_def endswith_def
      process_consolidated_file_def denied_fs_def a_desktop_def b_desktop_def
      strip_def isspace_def unique_def path_exists_def history_file_def to_csv_def)

text \<open>
  Claim C9, amended.  There is no fault isolation.  The archiver stops at the first date
  whose slice is absent and cannot be written: it raises \<^verbatim>\<open>OSError\<close> and leaves the file
  system as it was after the dates before it, so no later date is archived.  Loading the
  full history raises \<^verbatim>\<open>ParserError\<close> as a whole as soon as one slice file of the
  directory does not parse.
\<close>

theorem failure_aborts:
  "(report s = Some (Table raw) \<and> normalise_dates td raw = Some df
      \<and> unique (map Date df) = before @ d # after
      \<and> fst (archive_loop df before s) = Inr ()
      \<and> \<not> path_exists (history_file d) (snd (archive_loop df before s))
      \<and> history_file d \<in> set (denied s)
     \<longrightarrow> process_consolidated_file td s = (Inl OSError, snd (archive_loop df before s)))
   \<and> (process_consolidated_file td s = (Inr df', s') \<and> (name, Unparseable) \<in> set (history s')
      \<and> endswith name ''_cwv_report.txt''
     \<longrightarrow> load_historical_data td s = (Inl ParserError, s'))"
proof (intro conjI impI)
  assume a: "report s = Some (Table raw) \<and> normalise_dates td raw = Some df
      \<and> unique (map Date df) = before @ d # after
      \<and> fst (archive_loop df before s) = Inr ()
      \<and> \<not> path_exists (history_file d) (snd (archive_loop df before s))
      \<and> history_file d \<in> set (denied s)"
  obtain s1 where s1: "archive_loop df before s = (Inr (), s1)"
    using a by (cases "archive_loop df before s") auto
  have den: "history_file d \<in> set (denied s1)"
    using a archive_loop_frame [of df before s] s1 by simp
  have "archive_loop df (before @ d # after) s = (Inl OSError, s1)"
    using a s1 den by (simp add: archive_loop_append archive_loop_denied del: archive_loop.simps)
  then show "process_consolidated_file td s = (Inl OSError, snd (archive_loop df before s))"
    using a s1 by (simp add: process_consolidated_file_def)
next
  assume b: "process_consolidated_file td s = (Inr df', s') \<and> (name, Unparseable) \<in> set (history s')
      \<and> endswith name ''_cwv_report.txt''"
  then have "read_all (history s') = Inl ParserError" by (auto intro: read_all_unparseable)
  then show "load_historical_data td s = (Inl ParserError, s')"
    using b by (simp add: load_historical_data_def)
qed

theorem failure_aborts_witness:
  "process_consolidated_file Some denied_fs = (Inl OSError, denied_fs)
   \<and> history denied_fs = []
   \<and> load_historical_data Some corrupt_fs = (Inl ParserError, corrupt_fs)"
proof -
  have u: "unique (map Date [a_desktop, b_desktop]) = [] @ ''2024-01-01'' # [''2024-01-02'']"
    by (simp add: unique_def a_desktop_def b_desktop_def)
  have n: "normalise_dates Some [a_desktop, b_desktop] = Some [a_desktop, b_desktop]"
    by (simp add: a_desktop_def b_desktop_def strip_def isspace_def)
  have p: "process_consolidated_file Some corrupt_fs = (Inr [], corrupt_fs)"
    by (simp add: pcf_empty_report corrupt_fs_def)
  have e: "endswith ''2024-01-01_cwv_report.txt'' ''_cwv_report.txt''"
    by (simp add: endswith_def)
  have h1: "report denied_fs = Some (Table [a_desktop, b_desktop])" by (simp add: denied_fs_def)
  have h2: "fst (archive_loop [a_desktop, b_desktop] [] denied_fs) = Inr ()" by simp
  have h3: "\<not> path_exists (history_file ''2024-01-01'') (snd (archive_loop [a_desktop, b_desktop] [] denied_fs))"
    by (simp add: path_exists_def denied_fs_def)
  have h4: "history_file ''2024-01-01'' \<in> set (denied denied_fs)"
    by (simp add: history_file_def denied_fs_def)
  have h5: "(''2024-01-01_cwv_report.txt'', Unparseable) \<in> set (history corrupt_fs)"
    by (simp add: corrupt_fs_def)
  have A: "process_consolidated_file Some denied_fs =
      (Inl OSError, snd (archive_loop [a_desktop, b_desktop] [] denied_fs))"
    using failure_aborts [of denied_fs "[a_desktop, b_desktop]" Some "[a_desktop, b_desktop]"
        "[]" "''2024-01-01''" "[''2024-01-02'']" "[]" corrupt_fs "''2024-01-01_cwv_report.txt''"]
      h1 n u h2 h3 h4 by blast
  have B: "load_historical_data Some corrupt_fs = (Inl ParserError, corrupt_fs)"
    using failure_aborts [of corrupt_fs "[]" Some "[]" "[]" "''x''" "[]" "[]" corrupt_fs
        "''2024-01-01_cwv_report.txt''"] p h5 e by blast
  show ?thesis using A B by (simp add: denied_fs_def)
qed

section \<open>Archiving is idempotent and write-once\<close>

lemma unique_props [simp]: "distinct (unique xs)" "set (unique xs) = set xs"
  by (simp_all add: unique_def)

lemma archive_loop_step_written:
  assumes "\<not> path_exists (history_file d) s" and "history_file d \<notin> set (denied s)"
  shows "archive_loop df (d # ds) s =
    archive_loop df ds
      (s\<lparr>history := history s @ [(history_file d, Table (filter (\<lambda>r. Date r = d) df))]\<rparr>)"
  using assms by (simp add: to_csv_def path_exists_def write_file_new)

lemma archive_loop_step_skip:
  "path_exists (history_file d) s \<Longrightarrow> archive_loop df (d # ds) s = archive_loop df ds s"
  by simp

lemma path_exists_archive_loop:
  "path_exists n s \<Longrightarrow> path_exists n (snd (archive_loop df ds s))"
proof (induction ds arbitrary: s)
  case Nil
  then show ?case by simp
next
  case (Cons d ds)
  show ?case
  proof (cases "path_exists (history_file d) s")
    case True
    then show ?thesis using Cons by (simp del: archive_loop.simps add: archive_loop_step_skip)
  next
    case False
    show ?thesis
    proof (cases "history_file d \<in> set (denied s)")
      case True
      then show ?thesis using False Cons.prems by (simp add: archive_loop_denied del: archive_loop.simps)
    next
      case no: False
      let ?s1 = "s\<lparr>history := history s @ [(history_file d, Table (filter (\<lambda>r. Date r = d) df))]\<rparr>"
      have "path_exists n ?s1" using Cons.prems by (simp add: path_exists_def)
      then have "path_exists n (snd (archive_loop df ds ?s1))" by (rule Cons.IH)
      then show ?thesis using False no by (simp add: archive_loop_step_written del: archive_loop.simps)
    qed
  qed
qed

lemma archive_loop_idem:
  "snd (archive_loop df ds (snd (archive_loop df ds s))) = snd (archive_loop df ds s)"
proof (induction ds arbitrary: s)
  case Nil
  show ?case by simp
next
  case (Cons d ds)
  show ?case
  proof (cases "path_exists (history_file d) s")
    case True
    then have "path_exists (history_file d) (snd (archive_loop df ds s))"
      by (rule path_exists_archive_loop)
    then show ?thesis
      using True Cons.IH [of s] by (simp del: archive_loop.simps add: archive_loop_step_skip)
  next
    case False
    show ?thesis
    proof (cases "history_file d \<in> set (denied s)")
      case True
      then show ?thesis using False by (simp add: archive_loop_denied del: archive_loop.simps)
    next
      case no: False
      let ?s1 = "s\<lparr>history := history s @ [(history_file d, Table (filter (\<lambda>r. Date r = d) df))]\<rparr>"
      have step: "archive_loop df (d # ds) s = archive_loop df ds ?s1"
        using False no by (rule archive_loop_step_written)
      have "path_exists (history_file d) ?s1" by (simp add: path_exists_def)
      then have "path_exists (history_file d) (snd (archive_loop df ds ?s1))"
        by (rule path_exists_archive_loop)
      then have "archive_loop df (d # ds) (snd (archive_loop df ds ?s1)) =
          archive_loop df ds (snd (archive_loop df ds ?s1))"
        by (rule archive_loop_step_skip)
      then show ?thesis using step Cons.IH [of ?s1] by simp
    qed
  qed
qed

lemma archive_loop_extends:
  "\<exists>new. snd (archive_loop df ds s) = s\<lparr>history := history s @ new\<rparr>
     \<and> distinct (map fst new) \<and> set (map fst new) \<inter> set (map fst (history s)) = {}"
proof (induction ds arbitrary: s)
  case Nil
  show ?case by (rule exI [of _ "[]"]) simp
next
  case (Cons d ds)
  show ?case
  proof (cases "path_exists (history_file d) s")
    case True
    then show ?thesis using Cons.IH [of s] by (simp del: archive_loop.simps add: archive_loop_step_skip)
  next
    case False
    show ?thesis
    proof (cases "history_file d \<in> set (denied s)")
      case True
      then have "archive_loop df (d # ds) s = (Inl OSError, s)"
        using False by (simp add: archive_loop_denied del: archive_loop.simps)
      then show ?thesis by (intro exI [of _ "[]"]) simp
    next
      case no: False
      let ?f = "(history_file d, Table (filter (\<lambda>r. Date r = d) df))"
      let ?s1 = "s\<lparr>history := history s @ [?f]\<rparr>"
      have step: "archive_loop df (d # ds) s = archive_loop df ds ?s1"
        using False no by (rule archive_loop_step_written)
      obtain new where new: "snd (archive_loop df ds ?s1) = ?s1\<lparr>history := history ?s1 @ new\<rparr>"
        "distinct (map fst new)" "set (map fst new) \<inter> set (map fst (history ?s1)) = {}"
        using Cons.IH [of ?s1] by blast
      have "snd (archive_loop df (d # ds) s) = s\<lparr>history := history s @ (?f # new)\<rparr>"
        using step new(1) by simp
      moreover have "distinct (map fst (?f # new))" using new(2,3) by auto
      moreover have "set (map fst (?f # new)) \<inter> set (map fst (history s)) = {}"
        using new(3) False by (auto simp: path_exists_def)
      ultimately show ?thesis by blast
    qed
  qed
qed

lemma pcf_state:
  "snd (process_consolidated_file td s) = s \<or>
   (\<exists>raw df. report s = Some (Table raw) \<and> normalise_dates td raw = Some df \<and>
      snd (process_consolidated_file td s) = snd (archive_loop df (unique (map Date df)) s))"
  by (auto simp: process_consolidated_file_def split: option.splits contents.splits prod.splits sum.splits)

lemma pcf_extends:
  "\<exists>new. snd (process_consolidated_file td s) = s\<lparr>history := history s @ new\<rparr>
     \<and> distinct (map fst new) \<and> set (map fst new) \<inter> set (map fst (history s)) = {}"
proof -
  from pcf_state [of td s] show ?thesis
  proof
    assume "snd (process_consolidated_file td s) = s"
    then show ?thesis by (intro exI [of _ "[]"]) simp
  next
    assume "\<exists>raw df. report s = Some (Table raw) \<and> normalise_dates td raw = Some df \<and>
      snd (process_consolidated_file td s) = snd (archive_loop df (unique (map Date df)) s)"
    then show ?thesis using archive_loop_extends by metis
  qed
qed

lemma pcf_idem:
  "snd (process_consolidated_file td (snd (process_consolidated_file td s))) =
   snd (process_consolidated_file td s)"
proof -
  from pcf_state [of td s] show ?thesis
  proof
    assume "snd (process_consolidated_file td s) = s"
    then show ?thesis by simp
  next
    assume "\<exists>raw df. report s = Some (Table raw) \<and> normalise_dates td raw = Some df \<and>
      snd (process_consolidated_file td s) = snd (archive_loop df (unique (map Date df)) s)"
    then obtain raw df where a: "report s = Some (Table raw)" "normalise_dates td raw = Some df"
      "snd (process_consolidated_file td s) = snd (archive_loop df (unique (map Date df)) s)"
      by blast
    let ?s' = "snd (archive_loop df (unique (map Date df)) s)"
    have r: "report ?s' = Some (Table raw)" using a(1) archive_loop_frame [of df _ s] by simp
    have "snd (process_consolidated_file td ?s') = snd (archive_loop df (unique (map Date df)) ?s')"
      using r a(2) by (simp add: process_consolidated_file_def split: prod.splits sum.splits)
    then show ?thesis using a(3) archive_loop_idem by simp
  qed
qed

text \<open>
  Claim C1.  Running the archiver a second time leaves the file system exactly as the first
  run left it.  A run only adds files: the history afterwards is the history before,
  unchanged and in place, followed by new files whose names are pairwise different and
  different from every name that was there; the same holds for a later run on any other
  report (the same, an overlapping or an unreadable one).  So no existing slice is
  changed, replaced or duplicated.
\<close>

theorem archive_idempotent_write_once:
  "snd (process_consolidated_file td (snd (process_consolidated_file td s))) =
     snd (process_consolidated_file td s)
   \<and> (\<exists>new. history (snd (process_consolidated_file td s)) = history s @ new
         \<and> distinct (map fst new) \<and> set (map fst new) \<inter> set (map fst (history s)) = {})
   \<and> (\<exists>new. history (snd (process_consolidated_file td
                 ((snd (process_consolidated_file td s))\<lparr>report := other\<rparr>))) =
              history (snd (process_consolidated_file td s)) @ new
         \<and> distinct (map fst new)
         \<and> set (map fst new) \<inter> set (map fst (history (snd (process_consolidated_file td s)))) = {})
   \<and> (distinct (map fst (history s)) \<longrightarrow>
        distinct (map fst (history (snd (process_consolidated_file td s)))))"
proof (intro conjI impI)
  show "snd (process_consolidated_file td (snd (process_consolidated_file td s))) =
     snd (process_consolidated_file td s)" by (rule pcf_idem)
next
  obtain new where n: "snd (process_consolidated_file td s) = s\<lparr>history := history s @ new\<rparr>"
    "distinct (map fst new)" "set (map fst new) \<inter> set (map fst (history s)) = {}"
    using pcf_extends [of td s] by blast
  show "\<exists>new. history (snd (process_consolidated_file td s)) = history s @ new
         \<and> distinct (map fst new) \<and> set (map fst new) \<inter> set (map fst (history s)) = {}"
    using n by (intro exI [of _ new]) simp
  assume "distinct (map fst (history s))"
  then show "distinct (map fst (history (snd (process_consolidated_file td s))))"
    using n by auto
next
  let ?s2 = "(snd (process_consolidated_file td s))\<lparr>report := other\<rparr>"
  obtain new where n: "snd (process_consolidated_file td ?s2) = ?s2\<lparr>history := history ?s2 @ new\<rparr>"
    "distinct (map fst new)" "set (map fst new) \<inter> set (map fst (history ?s2)) = {}"
    using pcf_extends [of td ?s2] by blast
  show "\<exists>new. history (snd (process_consolidated_file td ?s2)) =
              history (snd (process_consolidated_file td s)) @ new
         \<and> distinct (map fst new)
         \<and> set (map fst new) \<inter> set (map fst (history (snd (process_consolidated_file td s)))) = {}"
    using n by (intro exI [of _ new]) simp
qed

text \<open>
  On the scenario two runs leave the one slice of the one date.
\<close>

theorem archive_idempotent_write_once_witness:
  "history (snd (process_consolidated_file Some (snd (process_consolidated_file Some scenario_fs)))) =
     [(''2024-01-01_cwv_report.txt'', Table [a_desktop, a_mobile])]
   \<and> distinct (map fst (history scenario_fs))"
  using archive_idempotent_write_once [of Some scenario_fs None]
  by (simp add: scenario_archive) (simp add: scenario_fs_def)

section \<open>Round trip of archiving and loading\<close>

lemma history_file_inj [simp]: "history_file d = history_file d' \<longleftrightarrow> d = d'"
  by (simp add: history_file_def)

lemma endswith_history_file [simp]: "endswith (history_file d) ''_cwv_report.txt''"
  by (simp add: endswith_def history_file_def)

lemma archive_loop_all:
  assumes "denied s = []" and "distinct ds"
  shows "archive_loop df ds s =
     (Inr (), s\<lparr>history := history s @
        map (slice df) (filter (\<lambda>d. \<not> path_exists (history_file d) s) ds)\<rparr>)"
  using assms
proof (induction ds arbitrary: s)
  case Nil
  show ?case by simp
next
  case (Cons d ds)
  show ?case
  proof (cases "path_exists (history_file d) s")
    case True
    then show ?thesis using Cons by (simp del: archive_loop.simps add: archive_loop_step_skip)
  next
    case False
    let ?s1 = "s\<lparr>history := history s @ [slice df d]\<rparr>"
    have step: "archive_loop df (d # ds) s = archive_loop df ds ?s1"
      using False Cons.prems(1) by (simp add: archive_loop_step_written slice_def del: archive_loop.simps)
    have same: "filter (\<lambda>d'. \<not> path_exists (history_file d') ?s1) ds =
        filter (\<lambda>d'. \<not> path_exists (history_file d') s) ds"
      using Cons.prems(2) by (intro filter_cong) (auto simp: path_exists_def slice_def)
    have "archive_loop df ds ?s1 = (Inr (), ?s1\<lparr>history := history ?s1 @
        map (slice df) (filter (\<lambda>d'. \<not> path_exists (history_file d') ?s1) ds)\<rparr>)"
      using Cons.prems by (intro Cons.IH) simp_all
    then show ?thesis using step same False by simp
  qed
qed

lemma read_all_slices: "read_all (map (slice df) ds) = Inr (map (\<lambda>d. filter (\<lambda>r. Date r = d) df) ds)"
  by (induction ds) (simp_all add: slice_def)

lemma filter_concat_slices:
  "distinct ds \<Longrightarrow>
   filter (\<lambda>r. Date r = d) (concat (map (\<lambda>d'. filter (\<lambda>r. Date r = d') df) ds)) =
     (if d \<in> set ds then filter (\<lambda>r. Date r = d) df else [])"
proof (induction ds)
  case Nil
  show ?case by simp
next
  case (Cons a ds)
  have one: "filter (\<lambda>r. Date r = d) (filter (\<lambda>r. Date r = a) df) =
      (if a = d then filter (\<lambda>r. Date r = d) df else [])"
    by (induction df) auto
  show ?case using Cons one by auto
qed

lemma filter_date_absent: "d \<notin> Date ` set df \<Longrightarrow> filter (\<lambda>r. Date r = d) df = []"
  by (induction df) auto

text \<open>
  Claim C2.  Take a readable report whose dates parse, an empty history directory and no
  refused write, and let \<open>df\<close> be the report with its dates in canonical form.  Loading
  the full history then returns, for every date, exactly the rows of the report for that
  date, in their order; a report without rows gives the empty signal.
\<close>

theorem archive_load_round_trip:
  assumes "history s = []" and "denied s = []"
    and "report s = Some (Table raw)" and "normalise_dates td raw = Some df"
  shows "(df \<noteq> [] \<longrightarrow>
            (\<exists>h s'. load_historical_data td s = (Inr (Some h), s')
               \<and> (\<forall>d. filter (\<lambda>r. Date r = d) h = filter (\<lambda>r. Date r = d) df)))
       \<and> (df = [] \<longrightarrow> load_historical_data td s = (Inr None, s))"
proof -
  let ?ds = "unique (map Date df)"
  let ?s' = "s\<lparr>history := map (slice df) ?ds\<rparr>"
  have "archive_loop df ?ds s = (Inr (), ?s')"
    using archive_loop_all [of s ?ds df] assms(1,2) by (simp add: path_exists_def)
  then have pcf: "process_consolidated_file td s = (Inr df, ?s')"
    using assms(3,4) by (simp add: process_consolidated_file_def)
  let ?h = "concat (map (\<lambda>d. filter (\<lambda>r. Date r = d) df) ?ds)"
  have per_date: "filter (\<lambda>r. Date r = d) ?h = filter (\<lambda>r. Date r = d) df" for d
    using filter_concat_slices [of ?ds d df] filter_date_absent [of d df] by auto
  have empty: "?ds = [] \<longleftrightarrow> df = []"
    by (metis list.map_disc_iff set_empty unique_props(2))
  have nonempty: "df \<noteq> [] \<Longrightarrow> load_historical_data td s = (Inr (Some ?h), ?s')"
    using pcf empty by (simp add: load_historical_data_def read_all_slices)
  have none: "df = [] \<Longrightarrow> load_historical_data td s = (Inr None, s)"
    using pcf assms(1) by (simp add: load_historical_data_def unique_def)
  show ?thesis using nonempty none per_date by blast
qed

text \<open>
  On the scenario the loaded history is the two rows of the report.
\<close>

theorem archive_load_round_trip_witness:
  "history scenario_fs = [] \<and> denied scenario_fs = []
   \<and> fst (load_historical_data Some scenario_fs) = Inr (Some [a_desktop, a_mobile])"
proof -
  have n: "normalise_dates Some [a_desktop, a_mobile] = Some [a_desktop, a_mobile]"
    by (simp add: a_desktop_def a_mobile_def strip_date)
  have "\<exists>h s'. load_historical_data Some scenario_fs = (Inr (Some h), s')
      \<and> (\<forall>d. filter (\<lambda>r. Date r = d) h = filter (\<lambda>r. Date r = d) [a_desktop, a_mobile])"
    using archive_load_round_trip [of scenario_fs "[a_desktop, a_mobile]" Some "[a_desktop, a_mobile]"] n
    by (simp add: scenario_fs_def)
  then obtain h s' where h: "load_historical_data Some scenario_fs = (Inr (Some h), s')"
    "\<And>d. filter (\<lambda>r. Date r = d) h = filter (\<lambda>r. Date r = d) [a_desktop, a_mobile]" by blast
  have "load_historical_data Some scenario_fs =
      (Inr (Some [a_desktop, a_mobile]), snd (process_consolidated_file Some scenario_fs))"
    by (simp add: load_historical_data_def scenario_archive endswith_def)
  then show ?thesis using h by (simp add: scenario_fs_def)
qed

section \<open>Order of the domain table\<close>

text \<open>
  Claim C4 as stated fails: with \<^verbatim>\<open>a.com\<close> failing and \<^verbatim>\<open>c.com\<close> passing the table
  lists the passing domain first, so position 0 passes while position 1 fails.
\<close>

theorem failing_first_counterexample:
  "map (\<lambda>m. (index_URL m, merged_all_green m))
     (domain_table [''All Green'', ''Needs Improvement''] [a_desktop, a_mobile, c_desktop, c_mobile])
     = [(''c.com'', True), (''a.com'', False)]"
  by code_simp

text \<open>
  Claim C4, amended.  The table is sorted with the passing domains (all green) first and
  the failing ones after them, and by ascending URL within each group: for positions
  \<open>i < j\<close> either line \<open>i\<close> passes while line \<open>j\<close> fails, or both have the same status and
  the URL of line \<open>i\<close> is at most the URL of line \<open>j\<close>; for every status filter.
\<close>

theorem domain_table_sorted:
  assumes "i < j" and "j < length (domain_table selected_status df)"
  shows "(merged_all_green (domain_table selected_status df ! i)
            \<and> \<not> merged_all_green (domain_table selected_status df ! j))
       \<or> (merged_all_green (domain_table selected_status df ! i)
            = merged_all_green (domain_table selected_status df ! j)
          \<and> index_URL (domain_table selected_status df ! i)
            \<le> index_URL (domain_table selected_status df ! j))"
proof -
  let ?key = "\<lambda>m. (\<not> merged_all_green m, index_URL m)"
  let ?out = "domain_table selected_status df"
  have "sorted (map ?key ?out)"
    by (simp add: domain_table_def sort_values_def)
  then have "map ?key ?out ! i \<le> map ?key ?out ! j"
    using assms by (simp add: sorted_iff_nth_mono del: nth_map)
  then have "?key (?out ! i) \<le> ?key (?out ! j)" using assms by simp
  then show ?thesis by (auto simp: less_eq_prod_def)
qed

theorem domain_table_sorted_witness:
  "(0::nat) < 1 \<and> 1 < length (domain_table [] [a_desktop, a_mobile, c_desktop, c_mobile])
   \<and> index_URL (domain_table [] [a_desktop, a_mobile, c_desktop, c_mobile] ! 0) = ''c.com''
   \<and> merged_all_green (domain_table [] [a_desktop, a_mobile, c_desktop, c_mobile] ! 0)
   \<and> \<not> merged_all_green (domain_table [] [a_desktop, a_mobile, c_desktop, c_mobile] ! 1)"
proof -
  have e: "map (\<lambda>m. (index_URL m, merged_all_green m))
     (domain_table [] [a_desktop, a_mobile, c_desktop, c_mobile]) = [(''c.com'', True), (''a.com'', False)]"
    by code_simp
  have l: "length (domain_table [] [a_desktop, a_mobile, c_desktop, c_mobile]) = 2"
    using arg_cong [OF e, of length] by simp
  have n0: "(index_URL (domain_table [] [a_desktop, a_mobile, c_desktop, c_mobile] ! 0),
         merged_all_green (domain_table [] [a_desktop, a_mobile, c_desktop, c_mobile] ! 0)) = (''c.com'', True)"
    using arg_cong [OF e, of "\<lambda>xs. xs ! 0"] l by simp
  have n1: "(index_URL (domain_table [] [a_desktop, a_mobile, c_desktop, c_mobile] ! 1),
         merged_all_green (domain_table [] [a_desktop, a_mobile, c_desktop, c_mobile] ! 1)) = (''a.com'', False)"
    using arg_cong [OF e, of "\<lambda>xs. xs ! 1"] l by simp
  show ?thesis
    using domain_table_sorted [of 0 1 "[]" "[a_desktop, a_mobile, c_desktop, c_mobile]"] l n0 n1
    by simp
qed

section \<open>Device merge: meaning of all green\<close>




section \<open>Device merge: one line per URL\<close>





lemma index_URL_merged_line [simp]: "index_URL (merged_line t) = fst t"
  by (cases t) (simp add: merged_line_def Let_def)




end
